theory Spec2Isabelle
  imports Complex_Main
begin

section \<open>The productivity tracker: data model\<close>

text \<open>
  A shallow embedding of \<^verbatim>\<open>src/productivity_tracker.py\<close> (class
  \<^verbatim>\<open>ProductivityTracker\<close>). Conventions of the embedding:

  \<^item> A reading of \<^verbatim>\<open>time.time()\<close> is a \<^typ>\<open>real\<close>: float rounding is not
    modelled. Every operation takes one reading \<open>now\<close>; the several reads one call makes
    (and the \<^verbatim>\<open>datetime.now()\<close> of its log entry) are microseconds apart and are
    taken to be that one instant.
  \<^item> An attribute that may be \<^verbatim>\<open>None\<close> or may not exist yet is an \<open>option\<close>.
  \<^item> Python's truth test \<^verbatim>\<open>if self.clock_in_time:\<close> is false for \<^verbatim>\<open>None\<close> and
    for \<^verbatim>\<open>0.0\<close>; see \<open>add_active_time\<close>.
  \<^item> An uncaught Python exception is \<open>Inl\<close> of an \<open>error\<close>.
  \<^item> The two JSON files and the console are fields of the state, so that
    \<^verbatim>\<open>save_state\<close>, \<^verbatim>\<open>save_log\<close> stand where the source calls them; a write
    that would raise is a \<open>Some\<close> in \<open>config_write_fault\<close>, \<open>log_write_fault\<close>
    (the exception's message), and leaves the file as it was.
  \<^item> Tk widget configuration (labels, button states, the log text widget), the
    native Windows, macOS and D-Bus callbacks and the closing of the window are not
    modelled; message boxes and \<^verbatim>\<open>root.after\<close> callbacks are recorded in
    \<open>dialogs\<close> and \<open>after_queue\<close>.
\<close>

datatype error = TypeError | AttributeError

datatype status = LoggedOut | Active | OnBreak

datatype callback = CbClockIn | CbPromptClockIn

text \<open>What \<^verbatim>\<open>setup_system_event_handlers\<close> finds: the operating system, and whether
  its native bindings import and register (a string is the exception's message).\<close>

datatype platform_setup =
    Windows_without_pywin32 | Windows_ok | Windows_failed string
  | Darwin_ok | Darwin_without_pyobjc
  | Linux_ok | Linux_without_dbus | Linux_failed string
  | Other_system

text \<open>A file on disk: absent, present but raising on read (unreadable, or not JSON;
  the string is the exception's message), or holding a value.\<close>

datatype 'a disk_file = Missing | Corrupt string | Holds 'a

record log_entry =
  timestamp :: real
  event :: string
  details :: string

text \<open>The object \<^verbatim>\<open>save_state\<close> writes to \<^verbatim>\<open>tracker_config.json\<close>; a key that is
  absent from the file is \<open>None\<close>. A file whose JSON makes \<^verbatim>\<open>load_state\<close> raise
  inside its \<^verbatim>\<open>try\<close> (a list, a null timeout) is \<open>Corrupt\<close>; values of other
  types that Python would accept there (a string as the timeout) are not modelled.\<close>

record saved_state =
  saved_is_logged_in :: "bool option"
  saved_is_on_break :: "bool option"
  saved_idle_timeout_minutes :: "int option"
  saved_last_save :: "real option"

record tracker =
  is_logged_in :: bool
  is_on_break :: bool
  last_activity_time :: real
  clock_in_time :: "real option"
  break_start_time :: "real option"
  total_active_time :: real
  total_break_time :: real
  idle_timeout_seconds :: int
  listening :: bool
  idle_checker_started :: bool
  ui_updater_started :: bool
  sleep_detector_started :: bool
  running :: bool
  activity_log :: "log_entry list"
  was_logged_in :: "bool option"
  last_check_time :: "real option"
  idle_timeout_var :: int
  dialogs :: "(string \<times> string) list"
  after_queue :: "callback list"
  console :: "string list"
  config_file :: "saved_state disk_file"
  log_file :: "log_entry list disk_file"
  config_write_fault :: "string option"
  log_write_fault :: "string option"

text \<open>The status the source derives from its two flags (\<^verbatim>\<open>check_idle_status\<close>,
  \<^verbatim>\<open>update_time_displays\<close> and the status label all read them this way).\<close>

definition status_of :: "tracker \<Rightarrow> status" where
  "status_of s =
     (if \<not> is_logged_in s then LoggedOut
      else if is_on_break s then OnBreak else Active)"

section \<open>Python library functions the source calls\<close>

text \<open>\<^verbatim>\<open>int(x)\<close> of a float truncates towards zero.\<close>

definition py_int :: "real \<Rightarrow> int" where
  "py_int x = (if 0 \<le> x then \<lfloor>x\<rfloor> else \<lceil>x\<rceil>)"

definition digit :: "nat \<Rightarrow> char" where
  "digit n = ''0123456789'' ! n"

fun str_nat :: "nat \<Rightarrow> string" where
  "str_nat n = (if n < 10 then [digit n] else str_nat (n div 10) @ [digit (n mod 10)])"

declare str_nat.simps [simp del]

text \<open>\<^verbatim>\<open>str(i)\<close> and the f-string \<^verbatim>\<open>{i}\<close> of an int.\<close>

definition str_int :: "int \<Rightarrow> string" where
  "str_int i = (if i < 0 then ''-'' @ str_nat (nat (- i)) else str_nat (nat i))"

text \<open>\<^verbatim>\<open>"%02d" % i\<close>.\<close>

definition pad2 :: "int \<Rightarrow> string" where
  "pad2 i = (if 0 \<le> i \<and> i < 10 then ''0'' @ str_int i else str_int i)"

text \<open>\<^verbatim>\<open>str(timedelta(seconds=n))\<close> for an int \<open>n\<close>: the constructor normalises to
  days and \<open>0 \<le> seconds < 86400\<close> (floor division); \<^verbatim>\<open>__str__\<close> prints
  \<^verbatim>\<open>H:MM:SS\<close>, after \<^verbatim>\<open>D day[s], \<close> when the day count is not zero.\<close>

definition timedelta_str :: "int \<Rightarrow> string" where
  "timedelta_str n =
     (let days = n div 86400;
          seconds = n mod 86400;
          mm = seconds div 60;
          ss = seconds mod 60;
          hh = mm div 60;
          mm = mm mod 60;
          hms = str_int hh @ '':'' @ pad2 mm @ '':'' @ pad2 ss
      in if days \<noteq> 0
         then str_int days @ '' day'' @ (if \<bar>days\<bar> \<noteq> 1 then ''s'' else '''') @ '', '' @ hms
         else hms)"

section \<open>Persistence\<close>

text \<open>The bodies of the four \<^verbatim>\<open>try\<close> blocks: \<^verbatim>\<open>with open(F, 'w') as f: json.dump(v, f)\<close>
  and \<^verbatim>\<open>with open(F, 'r') as f: json.load(f)\<close>. \<open>Inl\<close> is the exception raised,
  which the \<^verbatim>\<open>except Exception as e\<close> that follows receives.\<close>

definition write_json :: "string option \<Rightarrow> 'a \<Rightarrow> string + 'a disk_file" where
  "write_json fault v = (case fault of Some e \<Rightarrow> Inl e | None \<Rightarrow> Inr (Holds v))"

definition path_exists :: "'a disk_file \<Rightarrow> bool" where
  "path_exists f = (case f of Missing \<Rightarrow> False | _ \<Rightarrow> True)"

definition read_json :: "'a disk_file \<Rightarrow> string + 'a" where
  "read_json f =
     (case f of
        Holds v \<Rightarrow> Inr v
      | Corrupt e \<Rightarrow> Inl e
      | Missing \<Rightarrow> Inl ''No such file or directory'')"

definition save_state :: "real \<Rightarrow> tracker \<Rightarrow> tracker" where
  "save_state now s =
     (let state = \<lparr>saved_is_logged_in = Some (is_logged_in s),
                   saved_is_on_break = Some (is_on_break s),
                   saved_idle_timeout_minutes = Some (idle_timeout_var s),
                   saved_last_save = Some now\<rparr>
      in case write_json (config_write_fault s) state of
           Inr f \<Rightarrow> s\<lparr>config_file := f\<rparr>
         | Inl e \<Rightarrow> s\<lparr>console := console s @ [''Error saving state: '' @ e]\<rparr>)"

definition load_state :: "tracker \<Rightarrow> tracker" where
  "load_state s =
     (if path_exists (config_file s) then
        (case read_json (config_file s) of
           Inr state \<Rightarrow>
             (let s1 = s\<lparr>was_logged_in :=
                          Some (case saved_is_logged_in state of Some b \<Rightarrow> b | None \<Rightarrow> False)\<rparr>
              in case saved_idle_timeout_minutes state of
                   Some m \<Rightarrow> s1\<lparr>idle_timeout_seconds := m * 60\<rparr>
                 | None \<Rightarrow> s1)
         | Inl e \<Rightarrow>
             s\<lparr>console := console s @ [''Error loading state: '' @ e],
               was_logged_in := Some False\<rparr>)
      else s)"

definition save_log :: "tracker \<Rightarrow> tracker" where
  "save_log s =
     (case write_json (log_write_fault s) (activity_log s) of
        Inr f \<Rightarrow> s\<lparr>log_file := f\<rparr>
      | Inl e \<Rightarrow> s\<lparr>console := console s @ [''Error saving log: '' @ e]\<rparr>)"

definition load_log :: "tracker \<Rightarrow> tracker" where
  "load_log s =
     (if path_exists (log_file s) then
        (case read_json (log_file s) of
           Inr entries \<Rightarrow> s\<lparr>activity_log := entries\<rparr>
         | Inl e \<Rightarrow>
             s\<lparr>console := console s @ [''Error loading log: '' @ e],
               activity_log := []\<rparr>)
      else s)"

section \<open>The activity log\<close>

definition log_activity :: "real \<Rightarrow> string \<Rightarrow> string \<Rightarrow> tracker \<Rightarrow> tracker" where
  "log_activity now event_type dets s =
     (let entry = \<lparr>timestamp = now, event = event_type, details = dets\<rparr>;
          s1 = s\<lparr>activity_log := activity_log s @ [entry]\<rparr>;
          s2 = (if length (activity_log s1) > 100
                then s1\<lparr>activity_log :=
                          drop (length (activity_log s1) - 100) (activity_log s1)\<rparr>
                else s1)
      in save_log s2)"

section \<open>The session state machine\<close>

definition start_activity_monitoring :: "tracker \<Rightarrow> tracker" where
  "start_activity_monitoring s = s\<lparr>listening := True\<rparr>"

definition stop_activity_monitoring :: "tracker \<Rightarrow> tracker" where
  "stop_activity_monitoring s = s\<lparr>listening := False\<rparr>"

definition update_activity_time :: "real \<Rightarrow> tracker \<Rightarrow> tracker" where
  "update_activity_time now s = s\<lparr>last_activity_time := now\<rparr>"

definition clock_in :: "real \<Rightarrow> tracker \<Rightarrow> tracker" where
  "clock_in now s =
     (let s1 = s\<lparr>is_logged_in := True,
                 clock_in_time := Some now,
                 last_activity_time := now,
                 total_active_time := 0,
                 total_break_time := 0\<rparr>;
          s2 = start_activity_monitoring s1;
          s3 = s2\<lparr>idle_checker_started := True, ui_updater_started := True\<rparr>;
          s4 = log_activity now ''CLOCK_IN'' ''Started work session'' s3
      in save_state now s4)"

text \<open>The statement \<^verbatim>\<open>if self.clock_in_time: self.total_active_time += (time.time() -
  self.clock_in_time)\<close>, which \<^verbatim>\<open>take_break\<close> and \<^verbatim>\<open>clock_out\<close> both contain. The
  condition is Python's truth test: false for \<^verbatim>\<open>None\<close> and for \<^verbatim>\<open>0.0\<close>.\<close>

definition add_active_time :: "real \<Rightarrow> tracker \<Rightarrow> tracker" where
  "add_active_time now s =
     (case clock_in_time s of
        None \<Rightarrow> s
      | Some c \<Rightarrow>
          if c \<noteq> 0 then s\<lparr>total_active_time := total_active_time s + (now - c)\<rparr> else s)"

definition resume_work :: "real \<Rightarrow> tracker \<Rightarrow> error + tracker" where
  "resume_work now s =
     (if is_on_break s then
        (case break_start_time s of
           None \<Rightarrow> Inl TypeError
         | Some b \<Rightarrow>
             (let break_duration = now - b;
                  s1 = s\<lparr>total_break_time := total_break_time s + break_duration\<rparr>;
                  s2 = s1\<lparr>is_on_break := False,
                          clock_in_time := Some now,
                          last_activity_time := now\<rparr>;
                  s3 = log_activity now ''BREAK_END''
                         (''Resumed work (break: '' @ str_int (py_int (break_duration / 60)) @ ''m)'')
                         s2
              in Inr (save_state now s3)))
      else Inr s)"

text \<open>\<^verbatim>\<open>take_break\<close>: its first branch, which starts a break and cannot raise, is
  \<open>start_break\<close>; its \<^verbatim>\<open>else\<close> branch calls \<^verbatim>\<open>resume_work\<close>.\<close>

definition start_break :: "real \<Rightarrow> tracker \<Rightarrow> tracker" where
  "start_break now s =
     (let s1 = s\<lparr>is_on_break := True, break_start_time := Some now\<rparr>;
          s2 = add_active_time now s1;
          s3 = log_activity now ''BREAK_START'' ''Started break'' s2
      in save_state now s3)"

definition take_break :: "real \<Rightarrow> tracker \<Rightarrow> error + tracker" where
  "take_break now s =
     (if \<not> is_on_break s then Inr (start_break now s)
      else resume_work now s)"

text \<open>The block \<^verbatim>\<open># Calculate final times\<close> of \<^verbatim>\<open>clock_out\<close>, and the details of
  its \<^verbatim>\<open>CLOCK_OUT\<close> entry.\<close>

definition final_times :: "real \<Rightarrow> tracker \<Rightarrow> error + tracker" where
  "final_times now s =
     (if is_on_break s then
        (case break_start_time s of
           None \<Rightarrow> Inl TypeError
         | Some b \<Rightarrow> Inr (s\<lparr>total_break_time := total_break_time s + (now - b)\<rparr>))
      else Inr (add_active_time now s))"

definition summary :: "string \<Rightarrow> real \<Rightarrow> real \<Rightarrow> string" where
  "summary reason active brk =
     reason @ '' | Active: '' @ timedelta_str (py_int active)
            @ '' | Breaks: '' @ timedelta_str (py_int brk)"

definition clock_out :: "real \<Rightarrow> bool \<Rightarrow> string \<Rightarrow> tracker \<Rightarrow> error + tracker" where
  "clock_out now auto reason s =
     (if \<not> is_logged_in s then Inr s
      else
        (case final_times now s of
           Inl e \<Rightarrow> Inl e
         | Inr s1 \<Rightarrow>
             (let s2 = s1\<lparr>is_logged_in := False, is_on_break := False\<rparr>;
                  s3 = stop_activity_monitoring s2;
                  s4 = log_activity now ''CLOCK_OUT''
                         (summary reason (total_active_time s3) (total_break_time s3)) s3;
                  s5 = s4\<lparr>clock_in_time := None,
                          total_active_time := 0,
                          total_break_time := 0\<rparr>;
                  s6 = save_state now s5
              in Inr (if auto
                      then s6\<lparr>dialogs := dialogs s6 @
                             [(''Auto Clock Out'',
                               ''You have been automatically clocked out due to: '' @ reason)]\<rparr>
                      else s6))))"

section \<open>The background loops\<close>

text \<open>One iteration of the \<^verbatim>\<open>while self.running\<close> loop of \<^verbatim>\<open>check_idle_status\<close>,
  at the instant \<open>now\<close>.\<close>

definition check_idle_tick :: "real \<Rightarrow> tracker \<Rightarrow> error + tracker" where
  "check_idle_tick now s =
     (if is_logged_in s \<and> \<not> is_on_break s then
        (let current_idle_time = now - last_activity_time s
         in if current_idle_time > real_of_int (idle_timeout_seconds s)
            then clock_out now True ''Idle timeout''
                   (log_activity now ''IDLE_TIMEOUT''
                      (''Idle for '' @ str_int (py_int (current_idle_time / 60)) @ '' minutes'') s)
            else Inr s)
      else Inr s)"

text \<open>The loop itself, over the instants at which its iterations run; an exception
  ends the thread.\<close>

fun check_idle_status :: "real list \<Rightarrow> tracker \<Rightarrow> error + tracker" where
  "check_idle_status [] s = Inr s"
| "check_idle_status (now # ticks) s =
     (if running s then
        (case check_idle_tick now s of
           Inl e \<Rightarrow> Inl e
         | Inr s' \<Rightarrow> check_idle_status ticks s')
      else Inr s)"

text \<open>One iteration of the loop of \<^verbatim>\<open>detect_sleep_by_time_gap\<close>. Reading an attribute
  that was never assigned raises \<^verbatim>\<open>AttributeError\<close>.\<close>

definition detect_sleep_tick :: "real \<Rightarrow> tracker \<Rightarrow> error + tracker" where
  "detect_sleep_tick current_time s =
     (case last_check_time s of
        None \<Rightarrow> Inl AttributeError
      | Some checked \<Rightarrow>
          (let time_gap = current_time - checked;
               after_check =
                 (if time_gap > 120 then
                    (let s1 = log_activity current_time ''SYSTEM_RESUME''
                                (''Detected system wake (gap: '' @
                                   str_int (py_int (time_gap / 60)) @ ''m)'') s
                     in if is_logged_in s1 then
                          (case clock_out current_time True
                                  (''System was sleeping ('' @
                                     str_int (py_int (time_gap / 60)) @ '' minutes)'') s1 of
                             Inl e \<Rightarrow> Inl e
                           | Inr s2 \<Rightarrow>
                               Inr (s2\<lparr>after_queue := after_queue s2 @ [CbPromptClockIn]\<rparr>))
                        else Inr s1)
                  else Inr s)
           in case after_check of
                Inl e \<Rightarrow> Inl e
              | Inr s3 \<Rightarrow> Inr (s3\<lparr>last_check_time := Some current_time\<rparr>)))"

fun detect_sleep_by_time_gap :: "real list \<Rightarrow> tracker \<Rightarrow> error + tracker" where
  "detect_sleep_by_time_gap [] s = Inr s"
| "detect_sleep_by_time_gap (now # ticks) s =
     (if running s then
        (case detect_sleep_tick now s of
           Inl e \<Rightarrow> Inl e
         | Inr s' \<Rightarrow> detect_sleep_by_time_gap ticks s')
      else Inr s)"

section \<open>Start-up\<close>

definition system_init_message :: "platform_setup \<Rightarrow> string option" where
  "system_init_message p =
     (case p of
        Windows_without_pywin32 \<Rightarrow> None
      | Windows_ok \<Rightarrow> Some ''Windows system event monitoring enabled''
      | Windows_failed e \<Rightarrow> Some (''Windows handler setup failed: '' @ e)
      | Darwin_ok \<Rightarrow> Some ''macOS system event monitoring enabled''
      | Darwin_without_pyobjc \<Rightarrow> Some ''macOS PyObjC not available, using time-gap detection''
      | Linux_ok \<Rightarrow> Some ''Linux D-Bus system event monitoring enabled''
      | Linux_without_dbus \<Rightarrow> Some ''D-Bus not available, using time-gap detection''
      | Linux_failed e \<Rightarrow> Some (''Linux handler setup: '' @ e)
      | Other_system \<Rightarrow> None)"

text \<open>\<^verbatim>\<open>setup_system_event_handlers\<close>: the platform's handlers, then the thread that
  runs \<^verbatim>\<open>detect_sleep_by_time_gap\<close>. It assigns no attribute but the thread.\<close>

definition setup_system_event_handlers :: "real \<Rightarrow> platform_setup \<Rightarrow> tracker \<Rightarrow> tracker" where
  "setup_system_event_handlers now p s =
     (let s1 = (case system_init_message p of
                  None \<Rightarrow> s
                | Some m \<Rightarrow> log_activity now ''SYSTEM_INIT'' m s)
      in s1\<lparr>sleep_detector_started := True\<rparr>)"

definition check_unexpected_shutdown :: "real \<Rightarrow> tracker \<Rightarrow> tracker" where
  "check_unexpected_shutdown now s =
     (if was_logged_in s = Some True then
        (let s1 = log_activity now ''UNEXPECTED_SHUTDOWN''
                    ''Detected unexpected shutdown - auto-clocking in'' s;
             s2 = s1\<lparr>dialogs := dialogs s1 @
                       [(''Welcome Back'',
                         ''Detected previous session was interrupted. Auto-clocking you in.'')]\<rparr>
         in s2\<lparr>after_queue := after_queue s2 @ [CbClockIn]\<rparr>)
      else s)"

text \<open>\<^verbatim>\<open>__init__\<close>, at the instant \<open>now\<close>, on a disk in the given condition: the
  attribute assignments, \<^verbatim>\<open>load_state\<close>, \<^verbatim>\<open>setup_ui\<close> (of which only the spinbox
  variable is kept) and \<^verbatim>\<open>check_unexpected_shutdown\<close>. The attributes
  \<^verbatim>\<open>_was_logged_in\<close> and \<^verbatim>\<open>last_check_time\<close> are not assigned here.\<close>

definition init :: "real \<Rightarrow> saved_state disk_file \<Rightarrow> log_entry list disk_file \<Rightarrow>
    string option \<Rightarrow> string option \<Rightarrow> tracker" where
  "init now cfg lg cfault lfault =
     (let s0 = \<lparr>is_logged_in = False,
                 is_on_break = False,
                 last_activity_time = now,
                 clock_in_time = None,
                 break_start_time = None,
                 total_active_time = 0,
                 total_break_time = 0,
                 idle_timeout_seconds = 300,
                 listening = False,
                 idle_checker_started = False,
                 ui_updater_started = False,
                 sleep_detector_started = False,
                 running = True,
                 activity_log = [],
                 was_logged_in = None,
                 last_check_time = None,
                 idle_timeout_var = 5,
                 dialogs = [],
                 after_queue = [],
                 console = [],
                 config_file = cfg,
                 log_file = lg,
                 config_write_fault = cfault,
                 log_write_fault = lfault\<rparr>
      in check_unexpected_shutdown now (load_state s0))"

text \<open>The program, \<^verbatim>\<open>app = ProductivityTracker(); app.run()\<close>, up to the Tk main
  loop: \<^verbatim>\<open>run\<close> loads the log and enters the loop.\<close>

definition program_start :: "real \<Rightarrow> saved_state disk_file \<Rightarrow> log_entry list disk_file \<Rightarrow>
    string option \<Rightarrow> string option \<Rightarrow> tracker" where
  "program_start now cfg lg cfault lfault = load_log (init now cfg lg cfault lfault)"

section \<open>Runs\<close>

text \<open>What happens to the tracker once the main loop runs: the three buttons,
  \<^verbatim>\<open>resume_work\<close> called directly, an input event reaching the listeners, an
  iteration of the idle checker (once \<^verbatim>\<open>clock_in\<close> has started its thread), the
  spinbox set to a value, and a callback scheduled with \<^verbatim>\<open>root.after\<close> coming due
  (with the user's answer to the resume prompt). Each comes with its instant.\<close>

datatype command =
    ClockIn | TakeBreak | ResumeWork | ClockOut bool string
  | InputEvent | IdleTick | Spin int | Due callback bool

definition update_settings :: "real \<Rightarrow> tracker \<Rightarrow> tracker" where
  "update_settings now s = save_state now (s\<lparr>idle_timeout_seconds := idle_timeout_var s * 60\<rparr>)"

definition prompt_clock_in_after_resume :: "real \<Rightarrow> bool \<Rightarrow> tracker \<Rightarrow> tracker" where
  "prompt_clock_in_after_resume now response s =
     (if \<not> is_logged_in s then
        (let s1 = s\<lparr>dialogs := dialogs s @
                      [(''System Resumed'',
                        ''Your system just resumed from sleep/shutdown.'' @
                          [CHR 0x0A, CHR 0x0A] @ ''Would you like to clock in now?'')]\<rparr>
         in if response then clock_in now s1 else s1)
      else s)"

fun exec :: "command \<times> real \<Rightarrow> tracker \<Rightarrow> error + tracker" where
  "exec (ClockIn, now) s = Inr (clock_in now s)"
| "exec (TakeBreak, now) s = take_break now s"
| "exec (ResumeWork, now) s = resume_work now s"
| "exec (ClockOut auto reason, now) s = clock_out now auto reason s"
| "exec (InputEvent, now) s = Inr (if listening s then update_activity_time now s else s)"
| "exec (IdleTick, now) s =
     (if idle_checker_started s \<and> running s then check_idle_tick now s else Inr s)"
| "exec (Spin m, now) s = Inr (update_settings now (s\<lparr>idle_timeout_var := m\<rparr>))"
| "exec (Due cb response, now) s =
     (if cb \<in> set (after_queue s) then
        (let s1 = s\<lparr>after_queue := remove1 cb (after_queue s)\<rparr>
         in case cb of
              CbClockIn \<Rightarrow> Inr (clock_in now s1)
            | CbPromptClockIn \<Rightarrow> Inr (prompt_clock_in_after_resume now response s1))
      else Inr s)"

fun run :: "(command \<times> real) list \<Rightarrow> tracker \<Rightarrow> error + tracker" where
  "run [] s = Inr s"
| "run (c # cs) s = (case exec c s of Inl e \<Rightarrow> Inl e | Inr s' \<Rightarrow> run cs s')"

text \<open>A sequence of appends to the log, each with its instant, event kind and details.\<close>

fun log_all :: "(real \<times> string \<times> string) list \<Rightarrow> tracker \<Rightarrow> tracker" where
  "log_all [] s = s"
| "log_all ((now, event_type, dets) # rest) s = log_all rest (log_activity now event_type dets s)"

definition entry_of :: "real \<times> string \<times> string \<Rightarrow> log_entry" where
  "entry_of x = (case x of (now, event_type, dets) \<Rightarrow>
                   \<lparr>timestamp = now, event = event_type, details = dets\<rparr>)"

text \<open>The tracker of a first start at instant 1000, with no file on disk and a
  writable disk; used for concrete runs.\<close>

definition fresh :: tracker where
  "fresh = program_start 1000 Missing Missing None None"

text \<open>The tracker of a start at instant 1000 on a disk where both files exist but
  cannot be read and neither can be written.\<close>

definition faulty :: tracker where
  "faulty = program_start 1000 (Corrupt ''Expecting value'') (Corrupt ''Permission denied'')
              (Some ''Permission denied'') (Some ''Read-only file system'')"

text \<open>The tracker of a start at instant 1000 after a session that was not clocked
  out: the settings file holds \<^verbatim>\<open>is_logged_in: true\<close>, so \<^verbatim>\<open>__init__\<close> schedules
  \<^verbatim>\<open>root.after(1000, self.clock_in)\<close>.\<close>

definition recovered :: tracker where
  "recovered = program_start 1000
     (Holds \<lparr>saved_is_logged_in = Some True, saved_is_on_break = Some False,
             saved_idle_timeout_minutes = Some 5, saved_last_save = Some 900\<rparr>)
     Missing None None"

section \<open>Predicates of the statements\<close>

text \<open>The timestamps a logged-in or on-break state needs: \<^verbatim>\<open>clock_in_time\<close> is set
  while logged in, \<^verbatim>\<open>break_start_time\<close> is set while the break flag is on.\<close>

definition timestamps_ok :: "tracker \<Rightarrow> bool" where
  "timestamps_ok s =
     ((is_logged_in s \<longrightarrow> clock_in_time s \<noteq> None) \<and>
      (is_on_break s \<longrightarrow> break_start_time s \<noteq> None))"

text \<open>The bookkeeping of a session clocked in at \<open>t0\<close>: the two totals add up to the
  time from \<open>t0\<close> to the start of the period that is open, a break (from
  \<^verbatim>\<open>break_start_time\<close>) or an active period (from a \<^verbatim>\<open>clock_in_time\<close> that
  Python's truth test accepts).\<close>

definition accounted :: "real \<Rightarrow> tracker \<Rightarrow> bool" where
  "accounted t0 s =
     (is_logged_in s \<and>
      (if is_on_break s
       then (case break_start_time s of
               None \<Rightarrow> False
             | Some b \<Rightarrow> total_active_time s + total_break_time s = b - t0)
       else (case clock_in_time s of
               None \<Rightarrow> False
             | Some c \<Rightarrow> c \<noteq> 0 \<and> total_active_time s + total_break_time s = c - t0)))"

text \<open>A run of break commands only (the button, or \<^verbatim>\<open>resume_work\<close>), at instants
  other than 0.\<close>

definition break_commands :: "(command \<times> real) list \<Rightarrow> bool" where
  "break_commands cmds =
     list_all (\<lambda>c. (fst c = TakeBreak \<or> fst c = ResumeWork) \<and> snd c \<noteq> 0) cmds"

text \<open>What a run leaves to observe of the session's times: the two totals, and the
  details of the newest log entry; \<open>None\<close> when the run raised.\<close>

definition outcome :: "error + tracker \<Rightarrow> (real \<times> real \<times> string) option" where
  "outcome r =
     (case r of
        Inl e \<Rightarrow> None
      | Inr s \<Rightarrow>
          Some (total_active_time s, total_break_time s,
                (case activity_log s of [] \<Rightarrow> [] | _ \<Rightarrow> details (last (activity_log s)))))"

text \<open>What a run leaves to observe of the session state: status, \<^verbatim>\<open>clock_in_time\<close>,
  \<^verbatim>\<open>break_start_time\<close>, the two totals, and the event kinds of the log in order;
  \<open>None\<close> when the run raised.\<close>

definition session_view ::
    "error + tracker \<Rightarrow> (status \<times> real option \<times> real option \<times> real \<times> real \<times> string list) option" where
  "session_view r =
     (case r of
        Inl e \<Rightarrow> None
      | Inr s \<Rightarrow>
          Some (status_of s, clock_in_time s, break_start_time s,
                total_active_time s, total_break_time s, map event (activity_log s)))"

section \<open>Shared lemmas\<close>

lemmas io_defs = save_state_def save_log_def write_json_def read_json_def path_exists_def
  load_state_def load_log_def log_activity_def Let_def

lemma activity_log_log_activity:
  "activity_log (log_activity now e d s) =
     drop (length (activity_log s) + 1 - 100)
       (activity_log s @ [\<lparr>timestamp = now, event = e, details = d\<rparr>])"
  by (simp add: log_activity_def save_log_def write_json_def Let_def split: option.splits)

lemma drop_last_twice:
  "drop (length (drop (length a - n) a @ b) - n) (drop (length a - n) a @ b)
     = drop (length (a @ b) - n) (a @ (b::'a list))"
  by (cases "length a \<le> n") (auto simp: add.commute)

lemma save_state_fields [simp]:
  "is_logged_in (save_state now s) = is_logged_in s"
  "is_on_break (save_state now s) = is_on_break s"
  "last_activity_time (save_state now s) = last_activity_time s"
  "clock_in_time (save_state now s) = clock_in_time s"
  "break_start_time (save_state now s) = break_start_time s"
  "total_active_time (save_state now s) = total_active_time s"
  "total_break_time (save_state now s) = total_break_time s"
  "idle_timeout_seconds (save_state now s) = idle_timeout_seconds s"
  "listening (save_state now s) = listening s"
  "idle_checker_started (save_state now s) = idle_checker_started s"
  "ui_updater_started (save_state now s) = ui_updater_started s"
  "sleep_detector_started (save_state now s) = sleep_detector_started s"
  "running (save_state now s) = running s"
  "activity_log (save_state now s) = activity_log s"
  "was_logged_in (save_state now s) = was_logged_in s"
  "last_check_time (save_state now s) = last_check_time s"
  "idle_timeout_var (save_state now s) = idle_timeout_var s"
  "dialogs (save_state now s) = dialogs s"
  "after_queue (save_state now s) = after_queue s"
  by (simp_all add: save_state_def write_json_def Let_def split: option.splits)

lemma log_activity_fields [simp]:
  "is_logged_in (log_activity now e d s) = is_logged_in s"
  "is_on_break (log_activity now e d s) = is_on_break s"
  "last_activity_time (log_activity now e d s) = last_activity_time s"
  "clock_in_time (log_activity now e d s) = clock_in_time s"
  "break_start_time (log_activity now e d s) = break_start_time s"
  "total_active_time (log_activity now e d s) = total_active_time s"
  "total_break_time (log_activity now e d s) = total_break_time s"
  "idle_timeout_seconds (log_activity now e d s) = idle_timeout_seconds s"
  "listening (log_activity now e d s) = listening s"
  "idle_checker_started (log_activity now e d s) = idle_checker_started s"
  "ui_updater_started (log_activity now e d s) = ui_updater_started s"
  "sleep_detector_started (log_activity now e d s) = sleep_detector_started s"
  "running (log_activity now e d s) = running s"
  "was_logged_in (log_activity now e d s) = was_logged_in s"
  "last_check_time (log_activity now e d s) = last_check_time s"
  "idle_timeout_var (log_activity now e d s) = idle_timeout_var s"
  "dialogs (log_activity now e d s) = dialogs s"
  "after_queue (log_activity now e d s) = after_queue s"
  by (simp_all add: log_activity_def save_log_def write_json_def Let_def split: option.splits)

lemma last_log_activity:
  "last (activity_log (log_activity now e d s)) = \<lparr>timestamp = now, event = e, details = d\<rparr>"
  by (simp add: activity_log_log_activity)

lemma clock_in_core [simp]:
  "is_logged_in (clock_in now s)"
  "is_on_break (clock_in now s) = is_on_break s"
  "clock_in_time (clock_in now s) = Some now"
  "break_start_time (clock_in now s) = break_start_time s"
  "total_active_time (clock_in now s) = 0"
  "total_break_time (clock_in now s) = 0"
  "last_activity_time (clock_in now s) = now"
  "last_check_time (clock_in now s) = last_check_time s"
  "sleep_detector_started (clock_in now s) = sleep_detector_started s"
  "running (clock_in now s) = running s"
  by (simp_all add: clock_in_def start_activity_monitoring_def Let_def)

lemma start_break_core [simp]:
  "is_logged_in (start_break now s) = is_logged_in s"
  "is_on_break (start_break now s)"
  "clock_in_time (start_break now s) = clock_in_time s"
  "break_start_time (start_break now s) = Some now"
  "total_break_time (start_break now s) = total_break_time s"
  "last_check_time (start_break now s) = last_check_time s"
  "sleep_detector_started (start_break now s) = sleep_detector_started s"
  "running (start_break now s) = running s"
  by (simp_all add: start_break_def add_active_time_def Let_def split: option.splits)

lemma start_break_active:
  "total_active_time (start_break now s) =
     (case clock_in_time s of None \<Rightarrow> total_active_time s
      | Some c \<Rightarrow> if c \<noteq> 0 then total_active_time s + (now - c) else total_active_time s)"
  by (simp add: start_break_def add_active_time_def Let_def split: option.splits)

lemma resume_work_cases:
  "resume_work now s =
     (if is_on_break s then
        (case break_start_time s of None \<Rightarrow> Inl TypeError
         | Some b \<Rightarrow> Inr (save_state now (log_activity now ''BREAK_END''
              (''Resumed work (break: '' @ str_int (py_int ((now - b) / 60)) @ ''m)'')
              (s\<lparr>total_break_time := total_break_time s + (now - b), is_on_break := False,
                 clock_in_time := Some now, last_activity_time := now\<rparr>))))
      else Inr s)"
  by (simp add: resume_work_def Let_def split: option.splits)

lemma clock_out_ok:
  "timestamps_ok s \<Longrightarrow>
     \<exists>s'. clock_out now auto reason s = Inr s' \<and> timestamps_ok s' \<and>
          last_check_time s' = last_check_time s \<and>
          sleep_detector_started s' = sleep_detector_started s \<and> running s' = running s"
  by (auto simp: clock_out_def final_times_def timestamps_ok_def add_active_time_def
        stop_activity_monitoring_def Let_def split: option.splits)

lemma resume_work_ok:
  "timestamps_ok s \<Longrightarrow>
     \<exists>s'. resume_work now s = Inr s' \<and> timestamps_ok s' \<and>
          last_check_time s' = last_check_time s \<and>
          sleep_detector_started s' = sleep_detector_started s \<and> running s' = running s"
  by (auto simp: resume_work_cases timestamps_ok_def split: option.splits)

lemma take_break_ok:
  "timestamps_ok s \<Longrightarrow>
     \<exists>s'. take_break now s = Inr s' \<and> timestamps_ok s' \<and>
          last_check_time s' = last_check_time s \<and>
          sleep_detector_started s' = sleep_detector_started s \<and> running s' = running s"
  using resume_work_ok [of s now]
  by (auto simp: take_break_def timestamps_ok_def)

lemma clock_in_ok:
  "timestamps_ok s \<Longrightarrow> timestamps_ok (clock_in now s)"
  by (auto simp: timestamps_ok_def)

lemma check_idle_tick_ok:
  "timestamps_ok s \<Longrightarrow>
     \<exists>s'. check_idle_tick now s = Inr s' \<and> timestamps_ok s' \<and>
          last_check_time s' = last_check_time s \<and>
          sleep_detector_started s' = sleep_detector_started s \<and> running s' = running s"
proof -
  assume ok: "timestamps_ok s"
  let ?s1 = "log_activity now ''IDLE_TIMEOUT''
        (''Idle for '' @ str_int (py_int ((now - last_activity_time s) / 60)) @ '' minutes'') s"
  have "timestamps_ok ?s1" using ok by (simp add: timestamps_ok_def)
  from clock_out_ok [OF this, of now True "''Idle timeout''"] ok
  show ?thesis by (auto simp: check_idle_tick_def Let_def)
qed

lemma exec_ok:
  "timestamps_ok s \<Longrightarrow>
     \<exists>s'. exec c s = Inr s' \<and> timestamps_ok s' \<and>
          last_check_time s' = last_check_time s \<and>
          sleep_detector_started s' = sleep_detector_started s \<and> running s' = running s"
proof -
  assume ok: "timestamps_ok s"
  obtain k now where c: "c = (k, now)" by (cases c)
  show ?thesis
  proof (cases k)
    case ClockIn
    then show ?thesis using ok c by (simp add: clock_in_ok)
  next
    case TakeBreak
    then show ?thesis using take_break_ok [OF ok, of now] c by simp
  next
    case ResumeWork
    then show ?thesis using resume_work_ok [OF ok, of now] c by simp
  next
    case (ClockOut auto reason)
    then show ?thesis using clock_out_ok [OF ok, of now auto reason] c by simp
  next
    case InputEvent
    then show ?thesis using ok c by (simp add: update_activity_time_def timestamps_ok_def)
  next
    case IdleTick
    then show ?thesis using check_idle_tick_ok [OF ok, of now] ok c by auto
  next
    case (Spin m)
    then show ?thesis using ok c by (simp add: update_settings_def timestamps_ok_def)
  next
    case (Due cb response)
    have q: "timestamps_ok (s\<lparr>after_queue := remove1 cb (after_queue s)\<rparr>)"
      using ok by (simp add: timestamps_ok_def)
    show ?thesis
      using ok q c Due
      by (cases cb)
         (auto simp: Let_def prompt_clock_in_after_resume_def clock_in_ok timestamps_ok_def)
  qed
qed

lemma run_ok:
  "timestamps_ok s \<Longrightarrow>
     \<exists>s'. run cs s = Inr s' \<and> timestamps_ok s' \<and>
          last_check_time s' = last_check_time s \<and>
          sleep_detector_started s' = sleep_detector_started s \<and> running s' = running s"
proof (induction cs arbitrary: s)
  case Nil
  then show ?case by simp
next
  case (Cons c cs)
  from exec_ok [OF Cons.prems, of c] obtain s1 where
    s1: "exec c s = Inr s1" "timestamps_ok s1" "last_check_time s1 = last_check_time s"
        "sleep_detector_started s1 = sleep_detector_started s" "running s1 = running s" by blast
  from Cons.IH [OF s1(2)] s1 show ?case by auto
qed

lemma program_start_fields:
  "\<not> is_logged_in (program_start now cfg lg cf lf)"
  "\<not> is_on_break (program_start now cfg lg cf lf)"
  "last_check_time (program_start now cfg lg cf lf) = None"
  "\<not> sleep_detector_started (program_start now cfg lg cf lf)"
  "running (program_start now cfg lg cf lf)"
  by (simp_all add: program_start_def init_def load_log_def load_state_def
        check_unexpected_shutdown_def Let_def split: sum.splits option.splits)


lemma program_start_ok: "timestamps_ok (program_start now cfg lg cf lf)"
  by (simp add: timestamps_ok_def program_start_fields)

lemma setup_fields:
  "is_logged_in (setup_system_event_handlers t p s) = is_logged_in s"
  "is_on_break (setup_system_event_handlers t p s) = is_on_break s"
  "clock_in_time (setup_system_event_handlers t p s) = clock_in_time s"
  "break_start_time (setup_system_event_handlers t p s) = break_start_time s"
  "last_check_time (setup_system_event_handlers t p s) = last_check_time s"
  "running (setup_system_event_handlers t p s) = running s"
  "sleep_detector_started (setup_system_event_handlers t p s)"
  by (simp_all add: setup_system_event_handlers_def Let_def split: option.splits)

lemma fresh_fields:
  "\<not> is_logged_in fresh" "\<not> is_on_break fresh" "clock_in_time fresh = None"
  "break_start_time fresh = None" "activity_log fresh = []" "dialogs fresh = []"
  "last_activity_time fresh = 1000" "idle_timeout_seconds fresh = 300"
  by (simp_all add: fresh_def program_start_def init_def load_log_def load_state_def
        path_exists_def check_unexpected_shutdown_def Let_def)

lemma clock_in_log:
  "last (activity_log (clock_in now s)) =
     \<lparr>timestamp = now, event = ''CLOCK_IN'', details = ''Started work session''\<rparr>"
  by (simp add: clock_in_def Let_def last_log_activity)

lemma start_break_log:
  "last (activity_log (start_break now s)) =
     \<lparr>timestamp = now, event = ''BREAK_START'', details = ''Started break''\<rparr>"
  by (simp add: start_break_def Let_def last_log_activity)

lemma clock_out_logged_in:
  assumes "is_logged_in s" "final_times now s = Inr s3"
  shows "\<exists>s'. clock_out now auto reason s = Inr s' \<and>
           activity_log s' =
             drop (length (activity_log s) + 1 - 100)
               (activity_log s @ [\<lparr>timestamp = now, event = ''CLOCK_OUT'',
                   details = summary reason (total_active_time s3) (total_break_time s3)\<rparr>]) \<and>
           total_active_time s' = 0 \<and> total_break_time s' = 0 \<and>
           status_of s' = LoggedOut \<and> clock_in_time s' = None \<and>
           dialogs s' = (if auto then dialogs s @ [(''Auto Clock Out'',
                 ''You have been automatically clocked out due to: '' @ reason)] else dialogs s)"
  using assms
  by (auto simp: clock_out_def final_times_def add_active_time_def status_of_def
        stop_activity_monitoring_def activity_log_log_activity Let_def
        split: option.splits if_splits)

lemma clock_in_fresh:
  "activity_log (clock_in 1000 fresh) =
     [\<lparr>timestamp = 1000, event = ''CLOCK_IN'', details = ''Started work session''\<rparr>]"
  "idle_timeout_seconds (clock_in 1000 fresh) = 300"
  "dialogs (clock_in 1000 fresh) = []"
  by (simp_all add: clock_in_def start_activity_monitoring_def activity_log_log_activity
        fresh_fields Let_def)

lemma run_append:
  "run (a @ b) s = (case run a s of Inl e \<Rightarrow> Inl e | Inr s' \<Rightarrow> run b s')"
  by (induction a arbitrary: s) (auto split: sum.splits)

lemma accounted_clock_in:
  "\<not> is_on_break s \<Longrightarrow> t0 \<noteq> 0 \<Longrightarrow> accounted t0 (clock_in t0 s)"
  by (simp add: accounted_def)

lemma accounted_start_break:
  "accounted t0 s \<Longrightarrow> \<not> is_on_break s \<Longrightarrow> accounted t0 (start_break t s)"
  by (auto simp: accounted_def start_break_active split: option.splits)

lemma accounted_resume_work:
  assumes "accounted t0 s" "t \<noteq> 0"
  shows "\<exists>s'. resume_work t s = Inr s' \<and> accounted t0 s'"
proof (cases "is_on_break s")
  case False
  with assms show ?thesis by (simp add: resume_work_def)
next
  case True
  with assms(1) obtain b where b: "break_start_time s = Some b"
      "total_active_time s + total_break_time s = b - t0" "is_logged_in s"
    by (auto simp: accounted_def split: option.splits)
  let ?s' = "save_state t (log_activity t ''BREAK_END''
              (''Resumed work (break: '' @ str_int (py_int ((t - b) / 60)) @ ''m)'')
              (s\<lparr>total_break_time := total_break_time s + (t - b), is_on_break := False,
                 clock_in_time := Some t, last_activity_time := t\<rparr>))"
  have r: "resume_work t s = Inr ?s'"
    using True b(1) by (simp add: resume_work_cases)
  have "accounted t0 ?s'"
    using b assms(2) by (simp add: accounted_def)
  with r show ?thesis by blast
qed

lemma accounted_exec:
  assumes "accounted t0 s" "k = TakeBreak \<or> k = ResumeWork" "t \<noteq> 0"
  shows "\<exists>s'. exec (k, t) s = Inr s' \<and> accounted t0 s'"
proof (cases "is_on_break s")
  case True
  with accounted_resume_work [OF assms(1,3)] assms(2) show ?thesis
    by (auto simp: take_break_def)
next
  case False
  with accounted_start_break [OF assms(1), of t] assms show ?thesis
    by (auto simp: take_break_def resume_work_def)
qed

lemma accounted_run:
  "accounted t0 s \<Longrightarrow> break_commands cmds \<Longrightarrow> \<exists>s'. run cmds s = Inr s' \<and> accounted t0 s'"
proof (induction cmds arbitrary: s)
  case Nil
  then show ?case by simp
next
  case (Cons c cmds)
  obtain k t where c: "c = (k, t)" by (cases c)
  from Cons.prems(2) c have k: "k = TakeBreak \<or> k = ResumeWork" "t \<noteq> 0" "break_commands cmds"
    by (simp_all add: break_commands_def)
  from accounted_exec [OF Cons.prems(1) k(1,2)] obtain s1 where
    s1: "exec (k, t) s = Inr s1" "accounted t0 s1" by blast
  from Cons.IH [OF s1(2) k(3)] s1 c show ?case by simp
qed

lemma accounted_final_times:
  "accounted t0 s \<Longrightarrow>
     \<exists>s3. final_times t1 s = Inr s3 \<and> total_active_time s3 + total_break_time s3 = t1 - t0"
  by (auto simp: accounted_def final_times_def add_active_time_def split: option.splits if_splits)

lemma faulty_fields:
  "config_write_fault faulty = Some ''Permission denied''"
  "log_write_fault faulty = Some ''Read-only file system''"
  "config_file faulty = Corrupt ''Expecting value''"
  "log_file faulty = Corrupt ''Permission denied''"
  "console faulty = [''Error loading state: Expecting value'', ''Error loading log: Permission denied'']"
  "was_logged_in faulty = Some False"
  "activity_log faulty = []"
  "idle_timeout_seconds faulty = 300"
  by (simp_all add: faulty_def program_start_def init_def load_log_def load_state_def
        path_exists_def read_json_def check_unexpected_shutdown_def Let_def)

lemma fresh_files: "config_file fresh = Missing" "log_file fresh = Missing"
  by (simp_all add: fresh_def program_start_def init_def load_log_def load_state_def
        path_exists_def read_json_def check_unexpected_shutdown_def Let_def)

section \<open>The log keeps the last 100 entries\<close>

lemma activity_log_log_all:
  "activity_log (log_all es s) =
     (if es = [] then activity_log s
      else drop (length (activity_log s @ map entry_of es) - 100)
             (activity_log s @ map entry_of es))"
proof (induction es arbitrary: s)
  case Nil
  show ?case by simp
next
  case (Cons x rest)
  obtain t e d where x: "x = (t, e, d)" by (cases x)
  let ?l = "activity_log s" and ?n = "\<lparr>timestamp = t, event = e, details = d\<rparr>"
  have step: "activity_log (log_activity t e d s) = drop (length (?l @ [?n]) - 100) (?l @ [?n])"
    by (simp add: activity_log_log_activity)
  show ?case
  proof (cases "rest = []")
    case True
    then show ?thesis using step by (simp add: x entry_of_def)
  next
    case False
    have "activity_log (log_all (x # rest) s) =
            drop (length (drop (length (?l @ [?n]) - 100) (?l @ [?n]) @ map entry_of rest) - 100)
                 (drop (length (?l @ [?n]) - 100) (?l @ [?n]) @ map entry_of rest)"
      using False Cons.IH [of "log_activity t e d s"] step by (simp add: x)
    also have "\<dots> = drop (length ((?l @ [?n]) @ map entry_of rest) - 100)
                        ((?l @ [?n]) @ map entry_of rest)"
      by (rule drop_last_twice)
    finally show ?thesis by (simp add: x entry_of_def)
  qed
qed

text \<open>
  Claim C7. After any sequence of calls of \<^verbatim>\<open>log_activity\<close> the log has at most
  100 entries: after at least one call whatever the log held before, and after none
  when it held at most 100 (the log of a fresh tracker is empty). When the sequence
  has \<open>n \<ge> 100\<close> calls the log is exactly the entries of the last 100 calls, in the
  order of the calls.
\<close>

theorem log_capped:
  "(es \<noteq> [] \<or> length (activity_log s) \<le> 100 \<longrightarrow>
      length (activity_log (log_all es s)) \<le> 100) \<and>
   (100 \<le> length es \<longrightarrow>
      activity_log (log_all es s) = drop (length es - 100) (map entry_of es))"
  by (auto simp: activity_log_log_all)

text \<open>The theorem at 150 appends to the log of a fresh tracker: entries 50 to 149
  remain.\<close>

theorem log_capped_witness:
  "length (activity_log (log_all (map (\<lambda>i. (real i, ''TICK'', str_nat i)) [0..<150]) fresh))
     \<le> 100 \<and>
   activity_log (log_all (map (\<lambda>i. (real i, ''TICK'', str_nat i)) [0..<150]) fresh)
     = map (\<lambda>i. \<lparr>timestamp = real i, event = ''TICK'', details = str_nat i\<rparr>) [50..<150]"
proof -
  have h: "length (activity_log fresh) \<le> 100"
    by (simp add: fresh_fields)
  have d: "drop 50 [0..<150] = [50..<150]"
    by (simp add: drop_upt)
  show ?thesis
    using h log_capped [of "map (\<lambda>i. (real i, ''TICK'', str_nat i)) [0..<150]" fresh]
    by (simp add: drop_map d entry_of_def comp_def)
qed

section \<open>Clocking out twice\<close>

text \<open>
  Claim C6. \<^verbatim>\<open>clock_out\<close> called while not logged in returns at once: for every
  instant and every \<^verbatim>\<open>auto\<close> and \<^verbatim>\<open>reason\<close> the resulting state is the state it
  was called in (every field, so the log gains no \<^verbatim>\<open>CLOCK_OUT\<close> entry and no dialog
  is shown), and the same holds for any number of such calls in a row.
\<close>

theorem clock_out_idempotent:
  "\<not> is_logged_in s \<Longrightarrow>
     clock_out now auto reason s = Inr s \<and>
     run (map (\<lambda>(t, a, r). (ClockOut a r, t)) calls) s = Inr s"
proof -
  assume out: "\<not> is_logged_in s"
  have one: "clock_out t a r s = Inr s" for t a r
    using out by (simp add: clock_out_def)
  have "run (map (\<lambda>(t, a, r). (ClockOut a r, t)) calls) s = Inr s"
    by (induction calls) (auto simp: one)
  with one show ?thesis by simp
qed

text \<open>The theorem on the fresh tracker, which is logged out.\<close>

theorem clock_out_idempotent_witness:
  "\<not> is_logged_in fresh \<and>
   clock_out 1500 True ''Idle timeout'' fresh = Inr fresh \<and>
   run [(ClockOut False ''Manual clock out'', 1600), (ClockOut True ''System sleep detected'', 1700)] fresh
     = Inr fresh"
proof -
  have h: "\<not> is_logged_in fresh"
    by (simp add: fresh_def program_start_def init_def io_defs check_unexpected_shutdown_def)
  show ?thesis
    using h clock_out_idempotent [OF h, of 1500 True "''Idle timeout''"
        "[(1600, False, ''Manual clock out''), (1700, True, ''System sleep detected'')]"]
    by simp
qed

section \<open>The break command as a toggle\<close>

text \<open>
  Claim C8. Whenever the break flag is on, in particular in every state whose status
  is OnBreak, \<^verbatim>\<open>take_break\<close> returns what \<^verbatim>\<open>resume_work\<close> returns at the same
  instant: the same state, with the same log entries, or the same exception.
\<close>

theorem take_break_toggles:
  "is_on_break s \<Longrightarrow> take_break now s = resume_work now s"
  by (simp add: take_break_def)

text \<open>The theorem on the state of a session clocked in at 1000 and on break since
  1100.\<close>

theorem take_break_toggles_witness:
  "status_of (start_break 1100 (clock_in 1000 fresh)) = OnBreak \<and>
   is_on_break (start_break 1100 (clock_in 1000 fresh)) \<and>
   take_break 1400 (start_break 1100 (clock_in 1000 fresh))
     = resume_work 1400 (start_break 1100 (clock_in 1000 fresh))"
proof -
  have h: "is_on_break (start_break 1100 (clock_in 1000 fresh))"
    by (simp add: start_break_def add_active_time_def Let_def split: option.splits)
  have l: "is_logged_in (start_break 1100 (clock_in 1000 fresh))"
    by (simp add: start_break_def clock_in_def start_activity_monitoring_def add_active_time_def Let_def split: option.splits)
  show ?thesis
    using h l take_break_toggles [OF h, of 1400] by (simp add: status_of_def)
qed

section \<open>When the two timestamps are set\<close>

text \<open>
  Claim C5, as stated, fails: the source never clears \<^verbatim>\<open>break_start_time\<close>, and
  clears \<^verbatim>\<open>clock_in_time\<close> only in \<^verbatim>\<open>clock_out\<close>. After clocking in at 1000 and
  pressing the break button at 1100 the status is OnBreak and \<^verbatim>\<open>clock_in_time\<close> is
  still 1000 (\<^verbatim>\<open>update_time_displays\<close> reads it in that state).
\<close>

theorem timestamps_counterexample:
  "take_break 1100 (clock_in 1000 fresh) = Inr (start_break 1100 (clock_in 1000 fresh)) \<and>
   status_of (start_break 1100 (clock_in 1000 fresh)) = OnBreak \<and>
   clock_in_time (start_break 1100 (clock_in 1000 fresh)) = Some 1000"
  by (simp add: take_break_def status_of_def fresh_def program_start_fields)

text \<open>
  Claim C5, amended. In every state the program reaches from its start, by any
  sequence of commands (the four operations of the state machine, and input events,
  idle checks, the spinbox and scheduled callbacks as well), no command raises,
  \<^verbatim>\<open>clock_in_time\<close> is set whenever the tracker is logged in (status Active or
  OnBreak) and \<^verbatim>\<open>break_start_time\<close> is set whenever the break flag is on. Starting
  a break keeps \<^verbatim>\<open>clock_in_time\<close>; \<^verbatim>\<open>resume_work\<close> keeps \<^verbatim>\<open>break_start_time\<close>;
  \<^verbatim>\<open>clock_out\<close> of a logged-in tracker clears \<^verbatim>\<open>clock_in_time\<close> and keeps
  \<^verbatim>\<open>break_start_time\<close>.
\<close>

theorem timestamps_invariant:
  "(\<exists>s. run cs (program_start now cfg lg cf lf) = Inr s \<and>
        (is_logged_in s \<longrightarrow> clock_in_time s \<noteq> None) \<and>
        (is_on_break s \<longrightarrow> break_start_time s \<noteq> None)) \<and>
   clock_in_time (start_break t s0) = clock_in_time s0 \<and>
   (is_on_break s0 \<and> resume_work t s0 = Inr s1 \<longrightarrow>
      break_start_time s1 = break_start_time s0) \<and>
   (is_logged_in s0 \<and> clock_out t auto reason s0 = Inr s1 \<longrightarrow>
      clock_in_time s1 = None \<and> break_start_time s1 = break_start_time s0)"
proof -
  have a: "\<exists>s. run cs (program_start now cfg lg cf lf) = Inr s \<and>
        (is_logged_in s \<longrightarrow> clock_in_time s \<noteq> None) \<and>
        (is_on_break s \<longrightarrow> break_start_time s \<noteq> None)"
    using run_ok [OF program_start_ok, of cs now cfg lg cf lf]
    by (auto simp: timestamps_ok_def)
  have b: "is_on_break s0 \<and> resume_work t s0 = Inr s1 \<longrightarrow>
      break_start_time s1 = break_start_time s0"
    by (auto simp: resume_work_cases split: option.splits)
  have c: "is_logged_in s0 \<and> clock_out t auto reason s0 = Inr s1 \<longrightarrow>
      clock_in_time s1 = None \<and> break_start_time s1 = break_start_time s0"
    by (auto simp: clock_out_def final_times_def add_active_time_def
          stop_activity_monitoring_def Let_def split: option.splits if_splits)
  from a b c show ?thesis by simp
qed

text \<open>The theorem on a session clocked in at 1000 with a break from 1100.\<close>

theorem timestamps_invariant_witness:
  "(\<exists>s. run [(ClockIn, 1000), (TakeBreak, 1100)] fresh = Inr s \<and>
        is_logged_in s \<and> is_on_break s \<and>
        clock_in_time s \<noteq> None \<and> break_start_time s \<noteq> None) \<and>
   (\<exists>s1. resume_work 1400 (start_break 1100 (clock_in 1000 fresh)) = Inr s1 \<and>
         break_start_time s1 = Some 1100) \<and>
   (\<exists>s1. clock_out 1500 False ''Manual clock out'' (clock_in 1000 fresh) = Inr s1 \<and>
         clock_in_time s1 = None \<and> break_start_time s1 = None)"
proof -
  let ?a = "clock_in 1000 fresh" and ?b = "start_break 1100 (clock_in 1000 fresh)"
  have r: "run [(ClockIn, 1000), (TakeBreak, 1100)] fresh = Inr ?b"
    by (simp add: take_break_def fresh_fields)
  have ok: "timestamps_ok ?b" "timestamps_ok ?a"
    by (simp_all add: timestamps_ok_def fresh_fields)
  from resume_work_ok [OF ok(1), of 1400] obtain s1 where
    s1: "resume_work 1400 ?b = Inr s1" by blast
  from clock_out_ok [OF ok(2), of 1500 False "''Manual clock out''"] obtain s2 where
    s2: "clock_out 1500 False ''Manual clock out'' ?a = Inr s2" by blast
  have one: "\<exists>s. run [(ClockIn, 1000), (TakeBreak, 1100)] fresh = Inr s \<and>
        is_logged_in s \<and> is_on_break s \<and>
        clock_in_time s \<noteq> None \<and> break_start_time s \<noteq> None"
    using timestamps_invariant [where cs = "[(ClockIn, 1000), (TakeBreak, 1100)]"
        and now = 1000 and cfg = Missing and lg = Missing and cf = None and lf = None] r
    by (simp add: fresh_def [symmetric])
  have two: "break_start_time s1 = Some 1100"
    using timestamps_invariant [where ?s0.0 = ?b and ?s1.0 = s1 and t = 1400] s1
    by simp
  have three: "clock_in_time s2 = None \<and> break_start_time s2 = None"
    using timestamps_invariant [where ?s0.0 = ?a and ?s1.0 = s2 and t = 1500 and auto = False
        and reason = "''Manual clock out''"] s2
    by (simp add: fresh_fields)
  from one two three s1 s2 show ?thesis by blast
qed

section \<open>The time-gap sleep detector\<close>

text \<open>
  Claim C4 says the gap detector runs in every execution. The only place that starts
  its thread is \<^verbatim>\<open>setup_system_event_handlers\<close>, which neither \<^verbatim>\<open>__init__\<close> nor
  \<^verbatim>\<open>run\<close> nor any handler calls: whatever the disk holds at start-up and whatever
  commands follow, none raises and the detector has not been started.
\<close>

theorem sleep_detector_never_started:
  "\<exists>s. run cs (program_start now cfg lg cf lf) = Inr s \<and> \<not> sleep_detector_started s"
  using run_ok [OF program_start_ok, of cs now cfg lg cf lf]
  by (auto simp: program_start_fields)

text \<open>What an iteration does once \<^verbatim>\<open>last_check_time\<close> holds a value: it
  completes and stores the instant of the check; and a check 200 seconds after the
  previous one, in an Active session clocked in at that previous instant, logs a
  clock-out that names 3 minutes.\<close>

lemma gap_check_completes:
  assumes "timestamps_ok s" "last_check_time s = Some checked"
  shows "\<exists>s'. detect_sleep_tick now s = Inr s' \<and> last_check_time s' = Some now"
proof -
  let ?s1 = "log_activity now ''SYSTEM_RESUME''
               (''Detected system wake (gap: '' @ str_int (py_int ((now - checked) / 60)) @ ''m)'') s"
  have "timestamps_ok ?s1" using assms(1) by (simp add: timestamps_ok_def)
  from clock_out_ok [OF this, of now True
      "''System was sleeping ('' @ str_int (py_int ((now - checked) / 60)) @ '' minutes)''"]
  show ?thesis using assms(2) by (auto simp: detect_sleep_tick_def Let_def)
qed

lemma gap_check_example:
  "outcome (detect_sleep_tick 1200 ((clock_in 1000 fresh)\<lparr>last_check_time := Some 1000\<rparr>))
     = Some (0, 0, ''System was sleeping (3 minutes) | Active: 0:03:20 | Breaks: 0:00:00'')"
  by code_simp

text \<open>
  Claim C10 says \<^verbatim>\<open>last_check_time\<close> is assigned before the loop first reads it.
  Its only assignment is at the end of the loop's body. Once
  \<^verbatim>\<open>setup_system_event_handlers\<close> has started the thread on the tracker of any
  start-up, and after any commands, the first iteration of the loop raises
  \<^verbatim>\<open>AttributeError\<close>.
\<close>

theorem first_gap_check_raises:
  "\<exists>s. run cs (setup_system_event_handlers t0 p (program_start now cfg lg cf lf)) = Inr s \<and>
       sleep_detector_started s \<and>
       detect_sleep_by_time_gap (t # ticks) s = Inl AttributeError"
proof -
  let ?s0 = "setup_system_event_handlers t0 p (program_start now cfg lg cf lf)"
  have "timestamps_ok ?s0"
    by (simp add: timestamps_ok_def setup_fields program_start_fields)
  from run_ok [OF this, of cs] obtain s where
    s: "run cs ?s0 = Inr s" "last_check_time s = last_check_time ?s0"
       "sleep_detector_started s = sleep_detector_started ?s0" "running s = running ?s0"
    by blast
  then have "last_check_time s = None" "running s" "sleep_detector_started s"
    by (simp_all add: setup_fields program_start_fields)
  then have "detect_sleep_by_time_gap (t # ticks) s = Inl AttributeError"
    by (simp add: detect_sleep_tick_def)
  with s \<open>sleep_detector_started s\<close> show ?thesis by blast
qed


section \<open>Entry points called in a state where they do not apply\<close>

text \<open>
  Claim C2 says that every entry point is a no-op in a state where its transition
  does not apply. \<^verbatim>\<open>clock_in\<close> has no guard on the state, and one of its callers
  has none either: after a start that finds \<^verbatim>\<open>is_logged_in: true\<close> in the settings
  file, \<^verbatim>\<open>check_unexpected_shutdown\<close> schedules \<^verbatim>\<open>root.after(1000, self.clock_in)\<close>
  while the Clock In button is enabled. When the user clocks in at 1000.5 and the
  callback comes due at 1001, the status is Active and \<^verbatim>\<open>clock_in\<close> runs again: it
  moves \<^verbatim>\<open>clock_in_time\<close> from 1000.5 to 1001 and logs a second \<^verbatim>\<open>CLOCK_IN\<close>. When
  the user has also started a break at 1000.6, the status is OnBreak and the call
  moves \<^verbatim>\<open>clock_in_time\<close> and zeroes the active total of 0.4 seconds.
\<close>

theorem clock_in_reentry:
  "after_queue recovered = [CbClockIn] \<and>
   session_view (run [(ClockIn, 2001 / 2)] recovered)
     = Some (Active, Some (2001 / 2), None, 0, 0, [''UNEXPECTED_SHUTDOWN'', ''CLOCK_IN'']) \<and>
   session_view (run [(ClockIn, 2001 / 2), (Due CbClockIn False, 1001)] recovered)
     = Some (Active, Some 1001, None, 0, 0,
             [''UNEXPECTED_SHUTDOWN'', ''CLOCK_IN'', ''CLOCK_IN'']) \<and>
   session_view (run [(ClockIn, 5001 / 5), (TakeBreak, 5003 / 5)] recovered)
     = Some (OnBreak, Some (5001 / 5), Some (5003 / 5), 2 / 5, 0,
             [''UNEXPECTED_SHUTDOWN'', ''CLOCK_IN'', ''BREAK_START'']) \<and>
   session_view (run [(ClockIn, 5001 / 5), (TakeBreak, 5003 / 5),
                      (Due CbClockIn False, 1001)] recovered)
     = Some (OnBreak, Some 1001, Some (5003 / 5), 0, 0,
             [''UNEXPECTED_SHUTDOWN'', ''CLOCK_IN'', ''BREAK_START'', ''CLOCK_IN''])"
  by code_simp

text \<open>The entry points that do test the state: \<^verbatim>\<open>clock_out\<close> while logged out and
  \<^verbatim>\<open>resume_work\<close> while the break flag is off return the state unchanged. The other
  two do not: \<^verbatim>\<open>clock_in\<close> in any state sets \<^verbatim>\<open>clock_in_time\<close> to now, zeroes both
  totals and logs \<^verbatim>\<open>CLOCK_IN\<close>, and \<^verbatim>\<open>take_break\<close> with the break flag off, logged
  in or not, starts a break.\<close>

lemma guarded_and_unguarded_entry_points:
  "(\<not> is_logged_in s \<longrightarrow> clock_out now auto reason s = Inr s) \<and>
   (\<not> is_on_break s \<longrightarrow> resume_work now s = Inr s) \<and>
   is_logged_in (clock_in now s) \<and>
   clock_in_time (clock_in now s) = Some now \<and>
   total_active_time (clock_in now s) = 0 \<and>
   total_break_time (clock_in now s) = 0 \<and>
   event (last (activity_log (clock_in now s))) = ''CLOCK_IN'' \<and>
   (\<not> is_on_break s \<longrightarrow>
      take_break now s = Inr (start_break now s) \<and>
      is_on_break (start_break now s) \<and>
      break_start_time (start_break now s) = Some now \<and>
      event (last (activity_log (start_break now s))) = ''BREAK_START'')"
  by (simp add: clock_out_def resume_work_def take_break_def clock_in_log start_break_log)

section \<open>The idle timeout\<close>

text \<open>
  Claim C3. An iteration of the idle checker at instant \<open>now\<close> fires exactly when
  the status is Active and \<open>now - last_activity_time > idle_timeout_seconds\<close>: it then
  logs one \<^verbatim>\<open>IDLE_TIMEOUT\<close> entry and calls \<^verbatim>\<open>clock_out(auto=True, reason="Idle
  timeout")\<close>, which returns a logged-out state whose log has gained that entry and
  a \<^verbatim>\<open>CLOCK_OUT\<close> entry after it (of which the last 100 are kept) and which has
  shown the automatic clock-out dialog. In every other case, so whenever the status
  is OnBreak or LoggedOut, the iteration leaves the state as it is.
\<close>

theorem idle_timeout_fires_iff:
  "check_idle_tick now s =
     (if status_of s = Active \<and> now - last_activity_time s > real_of_int (idle_timeout_seconds s)
      then clock_out now True ''Idle timeout''
             (log_activity now ''IDLE_TIMEOUT''
                (''Idle for '' @ str_int (py_int ((now - last_activity_time s) / 60)) @ '' minutes'') s)
      else Inr s) \<and>
   (status_of s = Active \<and> now - last_activity_time s > real_of_int (idle_timeout_seconds s) \<longrightarrow>
      (\<exists>s'. check_idle_tick now s = Inr s' \<and>
            status_of s' = LoggedOut \<and>
            activity_log s' =
              drop (length (activity_log s) + 2 - 100)
                (activity_log s @
                   [\<lparr>timestamp = now, event = ''IDLE_TIMEOUT'',
                      details = ''Idle for '' @
                        str_int (py_int ((now - last_activity_time s) / 60)) @ '' minutes''\<rparr>,
                    \<lparr>timestamp = now, event = ''CLOCK_OUT'',
                      details = summary ''Idle timeout''
                        (total_active_time (add_active_time now s)) (total_break_time s)\<rparr>]) \<and>
            dialogs s' = dialogs s @
              [(''Auto Clock Out'', ''You have been automatically clocked out due to: Idle timeout'')]))"
proof -
  let ?fires = "status_of s = Active \<and> now - last_activity_time s > real_of_int (idle_timeout_seconds s)"
  let ?idle = "\<lparr>timestamp = now, event = ''IDLE_TIMEOUT'',
                      details = ''Idle for '' @
                        str_int (py_int ((now - last_activity_time s) / 60)) @ '' minutes''\<rparr>"
  let ?s1 = "log_activity now ''IDLE_TIMEOUT''
                (''Idle for '' @ str_int (py_int ((now - last_activity_time s) / 60)) @ '' minutes'') s"
  have active: "status_of s = Active \<longleftrightarrow> is_logged_in s \<and> \<not> is_on_break s"
    by (simp add: status_of_def)
  have eq: "check_idle_tick now s =
     (if ?fires then clock_out now True ''Idle timeout'' ?s1 else Inr s)"
    by (simp add: check_idle_tick_def active Let_def)
  have obs: "\<exists>s'. check_idle_tick now s = Inr s' \<and>
            status_of s' = LoggedOut \<and>
            activity_log s' =
              drop (length (activity_log s) + 2 - 100)
                (activity_log s @ [?idle,
                    \<lparr>timestamp = now, event = ''CLOCK_OUT'',
                      details = summary ''Idle timeout''
                        (total_active_time (add_active_time now s)) (total_break_time s)\<rparr>]) \<and>
            dialogs s' = dialogs s @
              [(''Auto Clock Out'', ''You have been automatically clocked out due to: Idle timeout'')]"
    if f: ?fires
  proof -
    from f have li: "is_logged_in ?s1" and nb: "\<not> is_on_break ?s1" by (simp_all add: active)
    let ?s3 = "add_active_time now ?s1"
    have ft: "final_times now ?s1 = Inr ?s3"
      using nb by (simp add: final_times_def)
    have tot: "total_active_time ?s3 = total_active_time (add_active_time now s)"
        "total_break_time ?s3 = total_break_time s"
      by (simp_all add: add_active_time_def split: option.splits)
    from clock_out_logged_in [OF li ft, of True "''Idle timeout''"] obtain s' where
      s': "clock_out now True ''Idle timeout'' ?s1 = Inr s'"
        "activity_log s' = drop (length (activity_log ?s1) + 1 - 100)
               (activity_log ?s1 @ [\<lparr>timestamp = now, event = ''CLOCK_OUT'',
                   details = summary ''Idle timeout'' (total_active_time ?s3) (total_break_time ?s3)\<rparr>])"
        "status_of s' = LoggedOut"
        "dialogs s' = dialogs ?s1 @ [(''Auto Clock Out'',
                 ''You have been automatically clocked out due to: '' @ ''Idle timeout'')]"
      by auto
    have l1: "activity_log ?s1 = drop (length (activity_log s @ [?idle]) - 100) (activity_log s @ [?idle])"
      by (simp add: activity_log_log_activity)
    have "activity_log s' =
            drop (length (activity_log s @ [?idle, \<lparr>timestamp = now, event = ''CLOCK_OUT'',
                   details = summary ''Idle timeout'' (total_active_time ?s3) (total_break_time ?s3)\<rparr>]) - 100)
             (activity_log s @ [?idle, \<lparr>timestamp = now, event = ''CLOCK_OUT'',
                   details = summary ''Idle timeout'' (total_active_time ?s3) (total_break_time ?s3)\<rparr>])"
      using drop_last_twice [of "activity_log s @ [?idle]" 100
          "[\<lparr>timestamp = now, event = ''CLOCK_OUT'',
                   details = summary ''Idle timeout'' (total_active_time ?s3) (total_break_time ?s3)\<rparr>]"]
      unfolding s'(2) l1 by simp
    with s' f eq tot show ?thesis by simp
  qed
  from eq obs show ?thesis by blast
qed


text \<open>The theorem on a session clocked in at 1000 with no input since and the
  default timeout of 300 seconds: the check at 1301 fires, the check at 1300 does
  not, and neither does a check at 1301 during a break or while logged out.\<close>

theorem idle_timeout_fires_iff_witness:
  "status_of (clock_in 1000 fresh) = Active \<and>
   1301 - last_activity_time (clock_in 1000 fresh)
     > real_of_int (idle_timeout_seconds (clock_in 1000 fresh)) \<and>
   (\<exists>s'. check_idle_tick 1301 (clock_in 1000 fresh) = Inr s' \<and>
         status_of s' = LoggedOut \<and>
         activity_log s' =
           [\<lparr>timestamp = 1000, event = ''CLOCK_IN'', details = ''Started work session''\<rparr>,
            \<lparr>timestamp = 1301, event = ''IDLE_TIMEOUT'', details = ''Idle for 5 minutes''\<rparr>,
            \<lparr>timestamp = 1301, event = ''CLOCK_OUT'',
               details = ''Idle timeout | Active: 0:05:01 | Breaks: 0:00:00''\<rparr>] \<and>
         dialogs s' =
           [(''Auto Clock Out'',
             ''You have been automatically clocked out due to: Idle timeout'')]) \<and>
   check_idle_tick 1300 (clock_in 1000 fresh) = Inr (clock_in 1000 fresh) \<and>
   check_idle_tick 1301 (start_break 1100 (clock_in 1000 fresh))
     = Inr (start_break 1100 (clock_in 1000 fresh)) \<and>
   check_idle_tick 1301 fresh = Inr fresh"
proof -
  let ?a = "clock_in 1000 fresh"
  have st: "status_of ?a = Active" "status_of (start_break 1100 ?a) = OnBreak"
      "status_of fresh = LoggedOut"
    by (simp_all add: status_of_def fresh_fields)
  have gt: "1301 - last_activity_time ?a > real_of_int (idle_timeout_seconds ?a)"
      "\<not> 1300 - last_activity_time ?a > real_of_int (idle_timeout_seconds ?a)"
    by (simp_all add: clock_in_fresh)
  have m: "str_int (py_int (301 / 60)) = ''5''"
    by code_simp
  have sm: "summary ''Idle timeout'' (0 + (1301 - 1000)) 0
              = ''Idle timeout | Active: 0:05:01 | Breaks: 0:00:00''"
    by code_simp
  have tot: "total_active_time (add_active_time 1301 ?a) = 0 + (1301 - 1000)"
      "total_break_time ?a = 0"
    by (simp_all add: add_active_time_def)
  have fire: "\<exists>s'. check_idle_tick 1301 ?a = Inr s' \<and>
         status_of s' = LoggedOut \<and>
         activity_log s' =
           [\<lparr>timestamp = 1000, event = ''CLOCK_IN'', details = ''Started work session''\<rparr>,
            \<lparr>timestamp = 1301, event = ''IDLE_TIMEOUT'', details = ''Idle for 5 minutes''\<rparr>,
            \<lparr>timestamp = 1301, event = ''CLOCK_OUT'',
               details = ''Idle timeout | Active: 0:05:01 | Breaks: 0:00:00''\<rparr>] \<and>
         dialogs s' =
           [(''Auto Clock Out'',
             ''You have been automatically clocked out due to: Idle timeout'')]"
    using idle_timeout_fires_iff [of 1301 ?a, THEN conjunct2] st(1) gt(1)
    unfolding tot sm
    by (simp add: clock_in_fresh m)
  have quiet: "check_idle_tick 1300 ?a = Inr ?a"
    using idle_timeout_fires_iff [of 1300 ?a] gt(2) by simp
  have brk: "check_idle_tick 1301 (start_break 1100 ?a) = Inr (start_break 1100 ?a)"
    using idle_timeout_fires_iff [of 1301 "start_break 1100 ?a"] st(2) by simp
  have out: "check_idle_tick 1301 fresh = Inr fresh"
    using idle_timeout_fires_iff [of 1301 fresh] st(3) by simp
  from st gt fire quiet brk out show ?thesis by blast
qed

section \<open>The times of a session\<close>

text \<open>
  Claim C1, as stated, fails on its own scenario (clock in at 0, break at 100, resume
  at 400, clock out at 500): \<^verbatim>\<open>clock_out\<close> resets both totals after it has logged
  them, so the final totals are 0 and 0, not 200 and 300; and the summary it logs
  reports 100 seconds of activity, because \<^verbatim>\<open>if self.clock_in_time:\<close> is false for a
  clock-in at instant \<^verbatim>\<open>0.0\<close> and the first active period is not added. With the
  same scenario 1000 seconds later the summary reports 200 and 300 seconds, and the
  final totals are 0 and 0 again.
\<close>

theorem session_time_counterexample:
  "outcome (run [(ClockIn, 0), (TakeBreak, 100), (ResumeWork, 400),
                 (ClockOut False ''Manual clock out'', 500)] fresh)
     = Some (0, 0, ''Manual clock out | Active: 0:01:40 | Breaks: 0:05:00'') \<and>
   outcome (run [(ClockIn, 1000), (TakeBreak, 1100), (ResumeWork, 1400),
                 (ClockOut False ''Manual clock out'', 1500)] fresh)
     = Some (0, 0, ''Manual clock out | Active: 0:03:20 | Breaks: 0:05:00'')"
  by code_simp

text \<open>
  Claim C1, amended. Take a state with the break flag off, clock in at \<open>t0 \<noteq> 0\<close>, run
  any sequence of break commands (the break button or \<^verbatim>\<open>resume_work\<close>, in any
  order) at instants other than 0, and clock out at \<open>t1\<close>. Nothing raises; the totals
  \<^verbatim>\<open>clock_out\<close> computes in its block "Calculate final times" add up to \<open>t1 - t0\<close>;
  they are the totals its \<^verbatim>\<open>CLOCK_OUT\<close> entry reports; and the state it returns is
  logged out with both totals reset to 0.
\<close>

theorem session_time_accounted:
  assumes "\<not> is_on_break s" and "t0 \<noteq> 0" and "break_commands cmds"
  shows "\<exists>s2 s3 s'.
           run ((ClockIn, t0) # cmds) s = Inr s2 \<and>
           final_times t1 s2 = Inr s3 \<and>
           total_active_time s3 + total_break_time s3 = t1 - t0 \<and>
           run ((ClockIn, t0) # cmds @ [(ClockOut auto reason, t1)]) s = Inr s' \<and>
           last (activity_log s') =
             \<lparr>timestamp = t1, event = ''CLOCK_OUT'',
                details = summary reason (total_active_time s3) (total_break_time s3)\<rparr> \<and>
           total_active_time s' = 0 \<and> total_break_time s' = 0 \<and>
           status_of s' = LoggedOut"
proof -
  from accounted_run [OF accounted_clock_in [OF assms(1,2)] assms(3)] obtain s2 where
    s2: "run cmds (clock_in t0 s) = Inr s2" "accounted t0 s2" by blast
  from accounted_final_times [OF s2(2), of t1] obtain s3 where
    s3: "final_times t1 s2 = Inr s3" "total_active_time s3 + total_break_time s3 = t1 - t0"
    by blast
  from s2(2) have li: "is_logged_in s2" by (simp add: accounted_def)
  from clock_out_logged_in [OF li s3(1), of auto reason] obtain s' where
    s': "clock_out t1 auto reason s2 = Inr s'"
      "activity_log s' =
             drop (length (activity_log s2) + 1 - 100)
               (activity_log s2 @ [\<lparr>timestamp = t1, event = ''CLOCK_OUT'',
                   details = summary reason (total_active_time s3) (total_break_time s3)\<rparr>])"
      "total_active_time s' = 0" "total_break_time s' = 0" "status_of s' = LoggedOut"
    by blast
  have r2: "run ((ClockIn, t0) # cmds) s = Inr s2"
    using s2(1) by simp
  have r': "run ((ClockIn, t0) # cmds @ [(ClockOut auto reason, t1)]) s = Inr s'"
    using s2(1) s'(1) by (simp add: run_append)
  have "last (activity_log s') =
             \<lparr>timestamp = t1, event = ''CLOCK_OUT'',
                details = summary reason (total_active_time s3) (total_break_time s3)\<rparr>"
    unfolding s'(2) by simp
  with r2 r' s3 s' show ?thesis by blast
qed

text \<open>The theorem on the scenario moved to a clock-in at 1000: break at 1100, resume
  at 1400, clock out at 1500. The computed totals are 200 and 300 seconds.\<close>

theorem session_time_accounted_witness:
  "\<exists>s2 s3 s'.
     run [(ClockIn, 1000), (TakeBreak, 1100), (ResumeWork, 1400)] fresh = Inr s2 \<and>
     final_times 1500 s2 = Inr s3 \<and>
     total_active_time s3 = 200 \<and> total_break_time s3 = 300 \<and>
     total_active_time s3 + total_break_time s3 = 1500 - 1000 \<and>
     run [(ClockIn, 1000), (TakeBreak, 1100), (ResumeWork, 1400),
          (ClockOut False ''Manual clock out'', 1500)] fresh = Inr s' \<and>
     last (activity_log s') =
       \<lparr>timestamp = 1500, event = ''CLOCK_OUT'',
          details = ''Manual clock out | Active: 0:03:20 | Breaks: 0:05:00''\<rparr> \<and>
     total_active_time s' = 0 \<and> total_break_time s' = 0 \<and>
     status_of s' = LoggedOut"
proof -
  have h1: "\<not> is_on_break fresh" by (simp add: fresh_fields)
  have h2: "(1000::real) \<noteq> 0" by simp
  have h3: "break_commands [(TakeBreak, 1100), (ResumeWork, 1400)]"
    by (simp add: break_commands_def)
  from session_time_accounted [OF h1 h2 h3, of 1500 False "''Manual clock out''"]
  obtain s2 s3 s' where
    s: "run [(ClockIn, 1000), (TakeBreak, 1100), (ResumeWork, 1400)] fresh = Inr s2"
       "final_times 1500 s2 = Inr s3"
       "total_active_time s3 + total_break_time s3 = 1500 - 1000"
       "run [(ClockIn, 1000), (TakeBreak, 1100), (ResumeWork, 1400),
             (ClockOut False ''Manual clock out'', 1500)] fresh = Inr s'"
       "last (activity_log s') =
             \<lparr>timestamp = 1500, event = ''CLOCK_OUT'',
                details = summary ''Manual clock out'' (total_active_time s3) (total_break_time s3)\<rparr>"
       "total_active_time s' = 0" "total_break_time s' = 0" "status_of s' = LoggedOut"
    by auto
  have "outcome (case run [(ClockIn, 1000), (TakeBreak, 1100), (ResumeWork, 1400)] fresh of
                   Inl e \<Rightarrow> Inl e | Inr x \<Rightarrow> final_times 1500 x)
          = Some (200, 300, ''Resumed work (break: 5m)'')"
    by code_simp
  then have v: "total_active_time s3 = 200" "total_break_time s3 = 300"
    unfolding s(1) by (simp_all add: s(2) outcome_def)
  have sm: "summary ''Manual clock out'' 200 300
              = ''Manual clock out | Active: 0:03:20 | Breaks: 0:05:00''"
    by code_simp
  from s v sm show ?thesis by simp
qed

section \<open>Persistence failures\<close>

text \<open>
  Claim C9. Each of \<^verbatim>\<open>save_state\<close>, \<^verbatim>\<open>save_log\<close>, \<^verbatim>\<open>load_state\<close>, \<^verbatim>\<open>load_log\<close>
  returns a state whatever the disk does. A write that raises leaves the tracker as
  it was but for one line printed on the console; a missing file leaves it as it was;
  a read that raises prints one line and sets \<^verbatim>\<open>_was_logged_in\<close> to \<^verbatim>\<open>False\<close>
  (\<^verbatim>\<open>load_state\<close>) or the log to the empty list (\<^verbatim>\<open>load_log\<close>). And whatever the
  two files hold at start-up and whether or not they can be written, start-up and
  every sequence of commands after it complete without an exception.
\<close>

theorem persistence_failures_caught:
  "(config_write_fault s = Some e \<longrightarrow>
      save_state now s = s\<lparr>console := console s @ [''Error saving state: '' @ e]\<rparr>) \<and>
   (log_write_fault s = Some e \<longrightarrow>
      save_log s = s\<lparr>console := console s @ [''Error saving log: '' @ e]\<rparr>) \<and>
   (config_file s = Missing \<longrightarrow> load_state s = s) \<and>
   (config_file s = Corrupt e \<longrightarrow>
      load_state s = s\<lparr>console := console s @ [''Error loading state: '' @ e],
                        was_logged_in := Some False\<rparr>) \<and>
   (log_file s = Missing \<longrightarrow> load_log s = s) \<and>
   (log_file s = Corrupt e \<longrightarrow>
      load_log s = s\<lparr>console := console s @ [''Error loading log: '' @ e],
                      activity_log := []\<rparr>) \<and>
   (\<exists>s'. run cs (program_start t0 cfg lg cfault lfault) = Inr s')"
proof -
  have "\<exists>s'. run cs (program_start t0 cfg lg cfault lfault) = Inr s'"
    using run_ok [OF program_start_ok, of cs t0 cfg lg cfault lfault] by blast
  then show ?thesis
    by (simp add: save_state_def save_log_def load_state_def load_log_def write_json_def
          read_json_def path_exists_def)
qed

text \<open>The theorem on a tracker whose files can be neither read nor written, and on
  the fresh tracker, whose files are missing.\<close>

theorem persistence_failures_caught_witness:
  "save_state 1100 faulty =
     faulty\<lparr>console := console faulty @ [''Error saving state: Permission denied'']\<rparr> \<and>
   save_log faulty =
     faulty\<lparr>console := console faulty @ [''Error saving log: Read-only file system'']\<rparr> \<and>
   load_state fresh = fresh \<and>
   load_state faulty =
     faulty\<lparr>console := console faulty @ [''Error loading state: Expecting value''],
            was_logged_in := Some False\<rparr> \<and>
   load_log fresh = fresh \<and>
   load_log faulty =
     faulty\<lparr>console := console faulty @ [''Error loading log: Permission denied''],
            activity_log := []\<rparr> \<and>
   console faulty
     = [''Error loading state: Expecting value'', ''Error loading log: Permission denied''] \<and>
   (\<exists>s'. run [(ClockIn, 1100), (TakeBreak, 1200), (ClockOut False ''Manual clock out'', 1300)]
           faulty = Inr s')"
proof -
  let ?cs = "[(ClockIn, 1100), (TakeBreak, 1200), (ClockOut False ''Manual clock out'', 1300)]"
  note a = persistence_failures_caught [where s = faulty and now = 1100
      and e = "''Permission denied''" and cs = ?cs and ?t0.0 = 1000
      and cfg = "Corrupt ''Expecting value''" and lg = "Corrupt ''Permission denied''"
      and cfault = "Some ''Permission denied''" and lfault = "Some ''Read-only file system''"]
  note b = persistence_failures_caught [where s = faulty and now = 1100
      and e = "''Read-only file system''" and cs = ?cs and ?t0.0 = 1000
      and cfg = Missing and lg = Missing and cfault = None and lfault = None]
  note c = persistence_failures_caught [where s = fresh and now = 1100
      and e = "''Permission denied''" and cs = ?cs and ?t0.0 = 1000
      and cfg = Missing and lg = Missing and cfault = None and lfault = None]
  note d = persistence_failures_caught [where s = faulty and now = 1100
      and e = "''Expecting value''" and cs = ?cs and ?t0.0 = 1000
      and cfg = Missing and lg = Missing and cfault = None and lfault = None]
  have 1: "save_state 1100 faulty =
     faulty\<lparr>console := console faulty @ [''Error saving state: '' @ ''Permission denied'']\<rparr>"
    using a faulty_fields(1) by blast
  have 2: "save_log faulty =
     faulty\<lparr>console := console faulty @ [''Error saving log: '' @ ''Read-only file system'']\<rparr>"
    using b faulty_fields(2) by blast
  have 3: "load_state fresh = fresh" "load_log fresh = fresh"
    using c fresh_files by blast+
  have 4: "load_state faulty =
     faulty\<lparr>console := console faulty @ [''Error loading state: '' @ ''Expecting value''],
            was_logged_in := Some False\<rparr>"
    using d faulty_fields(3) by blast
  have 5: "load_log faulty =
     faulty\<lparr>console := console faulty @ [''Error loading log: '' @ ''Permission denied''],
            activity_log := []\<rparr>"
    using a faulty_fields(4) by blast
  have 6: "\<exists>s'. run ?cs faulty = Inr s'"
    using a unfolding faulty_def by blast
  have 7: "''Error saving state: '' @ ''Permission denied'' = ''Error saving state: Permission denied''"
    "''Error saving log: '' @ ''Read-only file system'' = ''Error saving log: Read-only file system''"
    "''Error loading state: '' @ ''Expecting value'' = ''Error loading state: Expecting value''"
    "''Error loading log: '' @ ''Permission denied'' = ''Error loading log: Permission denied''"
    by simp_all
  show ?thesis
    using 1 2 3 4 5 6 faulty_fields(5) unfolding 7 by blast
qed

end
